theory Spec2Isabelle
  imports Complex_Main
begin

section \<open>Common data\<close>

text \<open>
  Python exceptions that the modelled functions can raise. None of the modelled functions
  contains a \<^verbatim>\<open>raise\<close> statement: every error below is raised by the Python runtime
  (list indexing, dictionary lookup, \<^verbatim>\<open>zip(..., strict=True)\<close>, iterating \<^verbatim>\<open>None\<close>).
\<close>

datatype py_error = IndexError | KeyError | ValueError | TypeError

text \<open>
  A speaker segment is the tuple \<^verbatim>\<open>(start, end, speaker)\<close> of
  \<^verbatim>\<open>Tuple[float, float, int]\<close>. Times are modelled as real numbers: rounding,
  infinities and NaN of IEEE doubles are outside the model.
\<close>

type_synonym stamp = "real \<times> real \<times> int"

section \<open>DiarizeService.get\_contiguous\_stamps and merge\_stamps\<close>

text \<open>
  One iteration of the loop of \<^verbatim>\<open>get_contiguous_stamps\<close> at index \<open>i\<close>. The loop state is
  the pair of the (mutated in place) argument list \<open>stamps\<close> and the output list
  \<open>contiguous_stamps\<close>. The loop runs over \<^verbatim>\<open>range(len(stamps) - 1)\<close>, so both reads
  are in range.
\<close>

definition contiguous_step :: "nat \<Rightarrow> stamp list \<times> stamp list \<Rightarrow> stamp list \<times> stamp list" where
  "contiguous_step i = (\<lambda>(stamps, contiguous_stamps).
     (case (stamps ! i, stamps ! (i + 1)) of
        ((start, endt, speaker), (next_start, next_end, next_speaker)) \<Rightarrow>
          if endt > next_start then
            let avg = (next_start + endt) / 2
            in (stamps[i + 1 := (avg, next_end, next_speaker)],
                contiguous_stamps @ [(start, avg, speaker)])
          else (stamps, contiguous_stamps @ [(start, endt, speaker)])))"

text \<open>
  The whole function: the loop, then \<^verbatim>\<open>stamps[-1]\<close>, which raises IndexError on the
  empty list, is appended.
\<close>

definition get_contiguous_stamps :: "stamp list \<Rightarrow> py_error + stamp list" where
  "get_contiguous_stamps stamps =
     (case fold contiguous_step [0..<length stamps - 1] (stamps, []) of
        (stamps', contiguous_stamps) \<Rightarrow>
          if stamps' = [] then Inl IndexError
          else Inr (contiguous_stamps @ [last stamps']))"

definition merge_step :: "nat \<Rightarrow> stamp list \<times> stamp list \<Rightarrow> stamp list \<times> stamp list" where
  "merge_step i = (\<lambda>(stamps, overlap_stamps).
     (case (stamps ! i, stamps ! (i + 1)) of
        ((start, endt, speaker), (next_start, next_end, next_speaker)) \<Rightarrow>
          if endt = next_start \<and> speaker = next_speaker then
            (stamps[i + 1 := (start, next_end, next_speaker)], overlap_stamps)
          else (stamps, overlap_stamps @ [(start, endt, speaker)])))"

definition merge_stamps :: "stamp list \<Rightarrow> py_error + stamp list" where
  "merge_stamps stamps =
     (case fold merge_step [0..<length stamps - 1] (stamps, []) of
        (stamps', overlap_stamps) \<Rightarrow>
          if stamps' = [] then Inl IndexError
          else Inr (overlap_stamps @ [last stamps']))"

text \<open>
  The two phases in the order \<^verbatim>\<open>DiarizeService.__call__\<close> applies them; an exception of
  the first phase propagates.
\<close>

definition reconcile :: "stamp list \<Rightarrow> py_error + stamp list" where
  "reconcile stamps =
     (case get_contiguous_stamps stamps of
        Inl e \<Rightarrow> Inl e
      | Inr outputs \<Rightarrow> merge_stamps outputs)"

text \<open>
  The same loops as forward passes that carry the rewritten next element at the head of
  the rest of the list. They are proved equal to the index loops below and are used
  only to reason about them.
\<close>

fun contiguous_walk :: "stamp list \<Rightarrow> stamp list" where
  "contiguous_walk [] = []"
| "contiguous_walk [x] = [x]"
| "contiguous_walk ((start, endt, speaker) # (next_start, next_end, next_speaker) # rest) =
     (if endt > next_start then
        (start, (next_start + endt) / 2, speaker)
          # contiguous_walk (((next_start + endt) / 2, next_end, next_speaker) # rest)
      else (start, endt, speaker) # contiguous_walk ((next_start, next_end, next_speaker) # rest))"

fun merge_walk :: "stamp list \<Rightarrow> stamp list" where
  "merge_walk [] = []"
| "merge_walk [x] = [x]"
| "merge_walk ((start, endt, speaker) # (next_start, next_end, next_speaker) # rest) =
     (if endt = next_start \<and> speaker = next_speaker then
        merge_walk ((start, next_end, next_speaker) # rest)
      else (start, endt, speaker) # merge_walk ((next_start, next_end, next_speaker) # rest))"

text \<open>Predicates of the claims, as executable functions.\<close>

definition seg_start :: "stamp \<Rightarrow> real" where
  "seg_start s = fst s"

definition seg_end :: "stamp \<Rightarrow> real" where
  "seg_end s = fst (snd s)"

definition seg_speaker :: "stamp \<Rightarrow> int" where
  "seg_speaker s = snd (snd s)"

text \<open>Chronological order by start.\<close>

definition ordered_by_start :: "stamp list \<Rightarrow> bool" where
  "ordered_by_start stamps = sorted (map seg_start stamps)"

text \<open>Every adjacent pair has \<open>end[i] \<le> start[i+1]\<close>.\<close>

fun contiguous :: "stamp list \<Rightarrow> bool" where
  "contiguous (x # y # rest) = (seg_end x \<le> seg_start y \<and> contiguous (y # rest))"
| "contiguous _ = True"

text \<open>The SpeakerSegment invariant \<open>start \<le> end\<close>.\<close>

definition valid_segment :: "stamp \<Rightarrow> bool" where
  "valid_segment s = (seg_start s \<le> seg_end s)"

text \<open>Every adjacent pair has \<open>end[i] \<le> end[i+1]\<close>.\<close>

definition ordered_by_end :: "stamp list \<Rightarrow> bool" where
  "ordered_by_end stamps = sorted (map seg_end stamps)"

text \<open>No adjacent pair shares both a boundary and a speaker.\<close>

fun no_mergeable_pair :: "stamp list \<Rightarrow> bool" where
  "no_mergeable_pair (x # y # rest) =
     (\<not> (seg_end x = seg_start y \<and> seg_speaker x = seg_speaker y) \<and> no_mergeable_pair (y # rest))"
| "no_mergeable_pair _ = True"

section \<open>DiarizeService: construction and parameter selection\<close>

text \<open>\<^verbatim>\<open>zip(xs, ys, strict=True)\<close>, consumed to the end: ValueError when the lengths differ.\<close>

definition zip_strict :: "'a list \<Rightarrow> 'b list \<Rightarrow> py_error + ('a \<times> 'b) list" where
  "zip_strict xs ys = (if length xs = length ys then Inr (zip xs ys) else Inl ValueError)"

text \<open>
  The attributes \<^verbatim>\<open>__init__\<close> stores on \<^verbatim>\<open>self\<close>. Of the dictionary \<^verbatim>\<open>self.models\<close>
  only the keys are kept (the modules are collaborators, passed to \<^verbatim>\<open>__call__\<close> below);
  a scale dictionary \<^verbatim>\<open>{k: (w, s)}\<close> is the list of its items in insertion order.
\<close>

record diarize_service =
  svc_device :: string
  models :: "int list"
  svc_max_num_speakers :: int
  default_window_lengths :: "real list"
  default_shift_lengths :: "real list"
  default_multiscale_weights :: "real list"
  default_segmentation_batch_size :: int
  default_scale_dict :: "(nat \<times> real \<times> real) list"

definition DiarizeService_init ::
  "string \<Rightarrow> int list \<Rightarrow> real list \<Rightarrow> real list \<Rightarrow> real list \<Rightarrow> int
     \<Rightarrow> py_error + diarize_service" where
  "DiarizeService_init device device_index window_lengths shift_lengths multiscale_weights
       max_num_speakers =
     (case zip_strict window_lengths shift_lengths of
        Inl e \<Rightarrow> Inl e
      | Inr pairs \<Rightarrow>
          Inr \<lparr> svc_device = device,
                models = device_index,
                svc_max_num_speakers = max_num_speakers,
                default_window_lengths = window_lengths,
                default_shift_lengths = shift_lengths,
                default_multiscale_weights = multiscale_weights,
                default_segmentation_batch_size =
                  (if length multiscale_weights > 3 then 64
                   else if length multiscale_weights > 1 then 128
                   else 256),
                default_scale_dict = enumerate 0 pairs \<rparr>)"

text \<open>
  The three values chosen by the \<^verbatim>\<open>if/elif/else\<close> on \<^verbatim>\<open>audio_duration\<close> in
  \<^verbatim>\<open>__call__\<close>.
\<close>

record scale_config =
  cfg_scale_dict :: "(nat \<times> real \<times> real) list"
  cfg_segmentation_batch_size :: int
  cfg_multiscale_weights :: "real list"

definition select_parameters :: "diarize_service \<Rightarrow> real \<Rightarrow> py_error + scale_config" where
  "select_parameters svc audio_duration =
     (if audio_duration < 3600 then
        Inr \<lparr> cfg_scale_dict = default_scale_dict svc,
              cfg_segmentation_batch_size = default_segmentation_batch_size svc,
              cfg_multiscale_weights = default_multiscale_weights svc \<rparr>
      else if audio_duration < 10800 then
        (case zip_strict [3.0, 2.5, 2.0, 1.5, 1.0] (default_shift_lengths svc) of
           Inl e \<Rightarrow> Inl e
         | Inr pairs \<Rightarrow>
             Inr \<lparr> cfg_scale_dict = enumerate 0 pairs,
                   cfg_segmentation_batch_size = 64,
                   cfg_multiscale_weights = default_multiscale_weights svc \<rparr>)
      else
        (case zip_strict [3.0, 2.0, 1.0] [0.75, 0.5, 0.25] of
           Inl e \<Rightarrow> Inl e
         | Inr pairs \<Rightarrow>
             Inr \<lparr> cfg_scale_dict = enumerate 0 pairs,
                   cfg_segmentation_batch_size = 32,
                   cfg_multiscale_weights = [1.0, 1.0, 1.0] \<rparr>))"

text \<open>
  \<^verbatim>\<open>DiarizeService.__call__\<close>. The VAD service and the segmentation and clustering
  modules are collaborators, taken as functions; the second component of the result is
  the list of collaborator calls made, in order. The Python value \<^verbatim>\<open>None\<close> is \<open>None\<close>;
  a returned list is \<open>Some\<close>. \<^verbatim>\<open>self.models[model_index]\<close> raises KeyError on a missing key.
\<close>

datatype diar_event =
    VadCall
  | SegmentationCall int scale_config
  | ClusteringCall int int

definition DiarizeService_call ::
  "diarize_service \<Rightarrow> ('w \<Rightarrow> 'v list)
     \<Rightarrow> (int \<Rightarrow> 'w \<Rightarrow> int \<Rightarrow> 'v list \<Rightarrow> (nat \<times> real \<times> real) list \<Rightarrow> real list \<Rightarrow> 'e)
     \<Rightarrow> (int \<Rightarrow> 'e \<Rightarrow> int \<Rightarrow> stamp list)
     \<Rightarrow> 'w \<Rightarrow> real \<Rightarrow> int \<Rightarrow> int
     \<Rightarrow> (py_error + stamp list option) \<times> diar_event list" where
  "DiarizeService_call svc vad_service segmentation clustering waveform audio_duration
       oracle_num_speakers model_index =
     (let vad_outputs = vad_service waveform in
      if length vad_outputs = 0 then (Inr None, [VadCall])
      else
        (case select_parameters svc audio_duration of
           Inl e \<Rightarrow> (Inl e, [VadCall])
         | Inr cfg \<Rightarrow>
             if model_index \<notin> set (models svc) then (Inl KeyError, [VadCall])
             else
               (let ms_emb_ts = segmentation model_index waveform
                      (cfg_segmentation_batch_size cfg) vad_outputs (cfg_scale_dict cfg)
                      (cfg_multiscale_weights cfg);
                    clustering_outputs = clustering model_index ms_emb_ts oracle_num_speakers;
                    events = [VadCall, SegmentationCall model_index cfg,
                              ClusteringCall model_index oracle_num_speakers]
                in (case reconcile clustering_outputs of
                      Inl e \<Rightarrow> (Inl e, events)
                    | Inr outputs \<Rightarrow> (Inr (Some outputs), events)))))"

section \<open>TranscribeService\<close>

text \<open>
  Python strings are lists of characters with code points below 256. \<^verbatim>\<open>str.strip()\<close>
  removes leading and trailing whitespace; below code point 256 Python's whitespace
  characters are 9 to 13, 28 to 32, 133 and 160.
\<close>

definition py_isspace :: "char \<Rightarrow> bool" where
  "py_isspace c = (of_char c \<in> {9, 10, 11, 12, 13, 28, 29, 30, 31, 32, 133, 160 :: nat})"

definition strip :: "string \<Rightarrow> string" where
  "strip s = rev (dropWhile py_isspace (rev (dropWhile py_isspace s)))"

fun join :: "string \<Rightarrow> string list \<Rightarrow> string" where
  "join sep [] = []"
| "join sep [x] = x"
| "join sep (x # y # ys) = x @ sep @ join sep (y # ys)"

text \<open>
  The prompt built at the start of \<^verbatim>\<open>TranscribeService.__call__\<close>; a non-empty string is
  true, the empty string false.
\<close>

definition build_prompt :: "string list option \<Rightarrow> string option" where
  "build_prompt vocab =
     (case vocab of
        None \<Rightarrow> None
      | Some v \<Rightarrow>
          if length v > 0 \<and> strip (v ! 0) \<noteq> [] then
            (let words = join '', '' v in Some (''Vocab: '' @ strip words))
          else None)"

text \<open>
  The prompt as the specification words it: the non-empty strings joined by \<open>", "\<close> after
  the prefix, and no prompt for an empty or whitespace-only vocabulary.
\<close>

definition spec_prompt :: "string list option \<Rightarrow> string option" where
  "spec_prompt vocab =
     (case vocab of
        None \<Rightarrow> None
      | Some v \<Rightarrow>
          if list_all (\<lambda>s. strip s = []) v then None
          else Some (''Vocab: '' @ join '', '' (filter (\<lambda>s. s \<noteq> []) v)))"

text \<open>The keyword arguments of \<^verbatim>\<open>WhisperModel.transcribe\<close> that the service passes.\<close>

record vad_params =
  threshold :: real
  min_speech_duration_ms :: int
  min_silence_duration_ms :: int
  speech_pad_ms :: int
  window_size_samples :: int

record transcribe_args =
  kw_language :: string
  kw_initial_prompt :: "string option"
  kw_repetition_penalty :: real
  kw_compression_ratio_threshold :: real
  kw_log_prob_threshold :: real
  kw_no_speech_threshold :: real
  kw_condition_on_previous_text :: bool
  kw_suppress_blank :: bool
  kw_word_timestamps :: bool
  kw_vad_filter :: bool
  kw_vad_parameters :: "vad_params option"

definition service_vad_parameters :: vad_params where
  "service_vad_parameters =
     \<lparr> threshold = 0.5, min_speech_duration_ms = 250, min_silence_duration_ms = 100,
       speech_pad_ms = 30, window_size_samples = 512 \<rparr>"

text \<open>
  What the model returns: segments with their words (\<^verbatim>\<open>segment.words\<close> is a list or
  \<^verbatim>\<open>None\<close>). The other fields of a segment are not read by the service.
\<close>

record raw_word =
  w_start :: real
  w_end :: real
  w_word :: string
  w_probability :: real

record raw_segment =
  s_start :: real
  s_end :: real
  s_text :: string
  s_words :: "raw_word list option"

text \<open>
  The transcription model is a collaborator with a state of its own: a call takes the
  state, the audio and the keyword arguments and returns the segments and the new state.
\<close>

type_synonym ('s, 'a) whisper = "'s \<Rightarrow> 'a \<Rightarrow> transcribe_args \<Rightarrow> raw_segment list \<times> 's"

text \<open>The dictionaries built by \<^verbatim>\<open>multi_channel\<close>.\<close>

record word_dict =
  wd_start :: real
  wd_end :: real
  wd_word :: string
  wd_score :: real

record segment_dict =
  sd_start :: real
  sd_end :: real
  sd_text :: string
  sd_words :: "word_dict list"
  sd_speaker :: int

definition word_to_dict :: "raw_word \<Rightarrow> word_dict" where
  "word_to_dict word =
     \<lparr> wd_start = w_start word, wd_end = w_end word, wd_word = w_word word,
       wd_score = w_probability word \<rparr>"

text \<open>
  The body of the loop over the segments: iterating \<^verbatim>\<open>None\<close> raises TypeError, and
  \<^verbatim>\<open>segment_dict["words"][0]\<close> raises IndexError on an empty list.
\<close>

definition segment_to_dict :: "int \<Rightarrow> raw_segment \<Rightarrow> py_error + segment_dict" where
  "segment_to_dict speaker_id segment =
     (case s_words segment of
        None \<Rightarrow> Inl TypeError
      | Some ws \<Rightarrow>
          (let words = map word_to_dict ws in
           if words = [] then Inl IndexError
           else Inr \<lparr> sd_start = wd_start (words ! 0), sd_end = wd_end (last words),
                      sd_text = s_text segment, sd_words = words,
                      sd_speaker = speaker_id \<rparr>))"

fun segments_loop :: "int \<Rightarrow> raw_segment list \<Rightarrow> segment_dict list \<Rightarrow> py_error + segment_dict list" where
  "segments_loop speaker_id [] final_transcript = Inr final_transcript"
| "segments_loop speaker_id (segment # segments) final_transcript =
     (case segment_to_dict speaker_id segment of
        Inl e \<Rightarrow> Inl e
      | Inr segment_dict \<Rightarrow> segments_loop speaker_id segments (final_transcript @ [segment_dict]))"

text \<open>
  \<^verbatim>\<open>TranscribeService.multi_channel\<close>: the result, the model's state after the call and
  the list of the calls made to the model.
\<close>

definition multi_channel ::
  "('s, 'a) whisper \<Rightarrow> 's \<Rightarrow> 'a \<Rightarrow> string \<Rightarrow> int \<Rightarrow> bool \<Rightarrow> bool \<Rightarrow> bool \<Rightarrow> real \<Rightarrow> real
     \<Rightarrow> real \<Rightarrow> real \<Rightarrow> bool \<Rightarrow> string option
     \<Rightarrow> (py_error + segment_dict list) \<times> 's \<times> transcribe_args list" where
  "multi_channel model st audio source_lang speaker_id suppress_blank word_timestamps
       internal_vad repetition_penalty compression_ratio_threshold log_prob_threshold
       no_speech_threshold condition_on_previous_text prompt =
     (let args =
            \<lparr> kw_language = source_lang,
              kw_initial_prompt = prompt,
              kw_repetition_penalty = repetition_penalty,
              kw_compression_ratio_threshold = compression_ratio_threshold,
              kw_log_prob_threshold = log_prob_threshold,
              kw_no_speech_threshold = no_speech_threshold,
              kw_condition_on_previous_text = condition_on_previous_text,
              kw_suppress_blank = suppress_blank,
              kw_word_timestamps = word_timestamps,
              kw_vad_filter = internal_vad,
              kw_vad_parameters = Some service_vad_parameters \<rparr>
      in (case model st audio args of
            (segments, st') \<Rightarrow> (segments_loop speaker_id segments [], st', [args])))"

text \<open>
  The loop of \<^verbatim>\<open>__call__\<close> over the channels, with \<open>mc\<close> the call of \<^verbatim>\<open>multi_channel\<close> for
  a channel index and its audio. An exception ends the loop.
\<close>

fun channels_loop ::
  "(nat \<Rightarrow> 'a \<Rightarrow> 's \<Rightarrow> (py_error + segment_dict list) \<times> 's \<times> transcribe_args list)
     \<Rightarrow> nat \<Rightarrow> 'a list \<Rightarrow> 's \<Rightarrow> segment_dict list list \<Rightarrow> transcribe_args list
     \<Rightarrow> (py_error + segment_dict list list) \<times> 's \<times> transcribe_args list" where
  "channels_loop mc audio_index [] st outputs calls = (Inr outputs, st, calls)"
| "channels_loop mc audio_index (audio_file # rest) st outputs calls =
     (case mc audio_index audio_file st of
        (Inl e, st', cs) \<Rightarrow> (Inl e, st', calls @ cs)
      | (Inr transcript, st', cs) \<Rightarrow>
          channels_loop mc (audio_index + 1) rest st' (outputs @ [transcript]) (calls @ cs))"

datatype 'a audio_input = Single 'a | Channels "'a list"

datatype transcribe_output = SingleOut "raw_segment list" | MultiOut "segment_dict list list"

text \<open>
  \<^verbatim>\<open>TranscribeService.__call__\<close>. \<^verbatim>\<open>multi_channel\<close> is called without
  \<^verbatim>\<open>condition_on_previous_text\<close>, whose default there is \<^verbatim>\<open>False\<close>; the second call of the
  single-channel branch passes no \<^verbatim>\<open>vad_parameters\<close>.
\<close>

definition TranscribeService_call ::
  "('s, 'a) whisper \<Rightarrow> 's \<Rightarrow> 'a audio_input \<Rightarrow> string \<Rightarrow> int \<Rightarrow> bool \<Rightarrow> string list option
     \<Rightarrow> bool \<Rightarrow> bool \<Rightarrow> real \<Rightarrow> real \<Rightarrow> real \<Rightarrow> real \<Rightarrow> bool
     \<Rightarrow> (py_error + transcribe_output) \<times> 's \<times> transcribe_args list" where
  "TranscribeService_call model st audio source_lang model_index suppress_blank vocab
       word_timestamps internal_vad repetition_penalty compression_ratio_threshold
       log_prob_threshold no_speech_threshold condition_on_previous_text =
     (let prompt = build_prompt vocab in
      case audio of
        Single a \<Rightarrow>
          (let args =
                 \<lparr> kw_language = source_lang,
                   kw_initial_prompt = prompt,
                   kw_repetition_penalty = repetition_penalty,
                   kw_compression_ratio_threshold = compression_ratio_threshold,
                   kw_log_prob_threshold = log_prob_threshold,
                   kw_no_speech_threshold = no_speech_threshold,
                   kw_condition_on_previous_text = condition_on_previous_text,
                   kw_suppress_blank = suppress_blank,
                   kw_word_timestamps = word_timestamps,
                   kw_vad_filter = internal_vad,
                   kw_vad_parameters = Some service_vad_parameters \<rparr>
           in (case model st a args of
                 (segments, st1) \<Rightarrow>
                   if segments = [] then
                     (let retry_args =
                            \<lparr> kw_language = source_lang,
                              kw_initial_prompt = prompt,
                              kw_repetition_penalty = repetition_penalty,
                              kw_compression_ratio_threshold = compression_ratio_threshold,
                              kw_log_prob_threshold = log_prob_threshold,
                              kw_no_speech_threshold = no_speech_threshold,
                              kw_condition_on_previous_text = condition_on_previous_text,
                              kw_suppress_blank = False,
                              kw_word_timestamps = True,
                              kw_vad_filter = (if internal_vad then False else True),
                              kw_vad_parameters = None \<rparr>
                      in (case model st1 a retry_args of
                            (segments2, st2) \<Rightarrow>
                              (Inr (SingleOut segments2), st2, [args, retry_args])))
                   else (Inr (SingleOut segments), st1, [args])))
      | Channels audios \<Rightarrow>
          (case channels_loop
                  (\<lambda>audio_index audio_file s.
                     multi_channel model s audio_file source_lang (int audio_index)
                       suppress_blank word_timestamps internal_vad repetition_penalty
                       compression_ratio_threshold log_prob_threshold no_speech_threshold
                       False prompt)
                  0 audios st [] [] of
             (Inl e, st', calls) \<Rightarrow> (Inl e, st', calls)
           | (Inr outputs, st', calls) \<Rightarrow> (Inr (MultiOut outputs), st', calls)))"

section \<open>early\_return\<close>

record utterance =
  u_text :: string
  u_start :: real
  u_end :: real
  u_speaker :: "int option"
  u_words :: "word_dict list option"

record process_times =
  pt_total :: real
  pt_transcription :: real
  pt_diarization :: "real option"
  pt_post_processing :: real

definition early_return :: "real \<Rightarrow> utterance list \<times> process_times \<times> real" where
  "early_return duration =
     ([\<lparr> u_text = ''<EMPTY AUDIO>'', u_start = 0, u_end = duration, u_speaker = None,
         u_words = None \<rparr>],
      \<lparr> pt_total = 0, pt_transcription = 0, pt_diarization = None, pt_post_processing = 0 \<rparr>,
      duration)"

section \<open>DeviceModelPool\<close>

text \<open>
  Modelled from the spec: the state of the pool of model replicas (section 4.1 of the
  specification; the service that owns the replicas is imported by the sources but is
  not among them). A replica is named by its index in the pool. The state is the list of
  the free replicas and the list of the outstanding leases (PoolSlots), each lease
  naming its replica.
\<close>

record pool =
  pool_free :: "nat list"
  pool_leases :: "nat list"

text \<open>
  Modelled from the spec: the pool is constructed with a fixed set of \<open>n\<close> replicas, all
  free.
\<close>

definition new_pool :: "nat \<Rightarrow> pool" where
  "new_pool n = \<lparr> pool_free = [0..<n], pool_leases = [] \<rparr>"

text \<open>
  Modelled from the spec: \<open>acquire\<close> grants a lease on a free replica, ``selecting any free
  replica''; the selected replica \<open>r\<close> is an argument. The result is \<open>None\<close> when \<open>r\<close> is not
  free: the caller stays suspended and the pool is unchanged. It never creates a replica.
\<close>

definition acquire :: "nat \<Rightarrow> pool \<Rightarrow> pool option" where
  "acquire r p =
     (if r \<in> set (pool_free p) then
        Some \<lparr> pool_free = remove1 r (pool_free p), pool_leases = r # pool_leases p \<rparr>
      else None)"

text \<open>
  Modelled from the spec: the error of a \<open>release\<close> that names no outstanding lease (a
  second release of the same lease).
\<close>

datatype pool_error = NotLeased

text \<open>
  Modelled from the spec: \<open>release\<close> returns the replica of a lease to the free replicas;
  releasing a lease that is not outstanding is an error.
\<close>

definition release :: "nat \<Rightarrow> pool \<Rightarrow> pool_error + pool" where
  "release r p =
     (if r \<in> set (pool_leases p) then
        Inr \<lparr> pool_free = pool_free p @ [r], pool_leases = remove1 r (pool_leases p) \<rparr>
      else Inl NotLeased)"

text \<open>
  Modelled from the spec: the two operations of the pool, each with the replica it
  selects or returns.
\<close>

datatype pool_op = Acquire nat | Release nat

text \<open>
  Modelled from the spec: concurrent jobs interleave their \<open>acquire\<close> and \<open>release\<close>
  operations, each taking effect at once; a schedule is the list of the operations in the
  order in which they take effect. A suspended \<open>acquire\<close> and a rejected \<open>release\<close> leave
  the pool as it is.
\<close>

fun pool_step :: "pool \<Rightarrow> pool_op \<Rightarrow> pool" where
  "pool_step p (Acquire r) = (case acquire r p of None \<Rightarrow> p | Some p' \<Rightarrow> p')"
| "pool_step p (Release r) = (case release r p of Inl e \<Rightarrow> p | Inr p' \<Rightarrow> p')"

definition run_pool :: "nat \<Rightarrow> pool_op list \<Rightarrow> pool" where
  "run_pool n ops = foldl pool_step (new_pool n) ops"

text \<open>
  Modelled from the spec: the invariant of the pool, every replica is either free or
  leased, exactly once.
\<close>

definition pool_inv :: "nat \<Rightarrow> pool \<Rightarrow> bool" where
  "pool_inv n p =
     (distinct (pool_free p @ pool_leases p) \<and> set (pool_free p @ pool_leases p) = {0..<n})"

section \<open>Auxiliary definitions for the statements\<close>

text \<open>A segment that has at least one word.\<close>

definition has_words :: "raw_segment \<Rightarrow> bool" where
  "has_words segment = (case s_words segment of None \<Rightarrow> False | Some ws \<Rightarrow> ws \<noteq> [])"

text \<open>An entry of the vocabulary that is not empty and neither begins nor ends with whitespace.\<close>

definition trimmed :: "string \<Rightarrow> bool" where
  "trimmed s = (s \<noteq> [] \<and> \<not> py_isspace (hd s) \<and> \<not> py_isspace (last s))"

text \<open>
  Stand-ins for collaborators in the examples: a VAD service that finds no speech, and a
  transcription model: its state is the list of the
  replies still to give, one per call; when the list is exhausted it returns no segment.
\<close>

definition silent_vad :: "nat \<Rightarrow> nat list" where
  "silent_vad waveform = []"

definition scripted_model :: "(raw_segment list list, 'a) whisper" where
  "scripted_model st audio args = (case st of [] \<Rightarrow> ([], []) | reply # rest \<Rightarrow> (reply, rest))"

section \<open>The index loops and the forward passes agree\<close>

lemma drop_last_index: "st \<noteq> [] \<Longrightarrow> drop (length st - Suc 0) st = [last st]"
  by (cases st rule: rev_cases) auto

lemma contiguous_step_length:
  "contiguous_step i (st, out) = (st', out') \<Longrightarrow> length st' = length st"
  by (auto simp: contiguous_step_def Let_def split: prod.splits if_splits)

lemma contiguous_step_walk:
  assumes "Suc i < length st" and "contiguous_step i (st, out) = (st', out')"
  shows "out' @ contiguous_walk (drop (Suc i) st') = out @ contiguous_walk (drop i st)"
proof -
  obtain s e sp where x: "st ! i = (s, e, sp)" by (cases "st ! i") auto
  obtain ns ne nsp where y: "st ! Suc i = (ns, ne, nsp)" by (cases "st ! Suc i") auto
  have d: "drop i st = (s, e, sp) # (ns, ne, nsp) # drop (Suc (Suc i)) st"
    using assms(1) x y by (metis Cons_nth_drop_Suc Suc_lessD)
  show ?thesis
  proof (cases "e > ns")
    case True
    then have st': "st' = st[Suc i := ((ns + e) / 2, ne, nsp)]"
      and out': "out' = out @ [(s, (ns + e) / 2, sp)]"
      using assms(2) x y by (auto simp: contiguous_step_def Let_def)
    have "drop (Suc i) st' = ((ns + e) / 2, ne, nsp) # drop (Suc (Suc i)) st"
      using assms(1) st' by (simp add: drop_update_cancel Cons_nth_drop_Suc [symmetric])
    then show ?thesis using True d out' by simp
  next
    case False
    then have st': "st' = st" and out': "out' = out @ [(s, e, sp)]"
      using assms(2) x y by (auto simp: contiguous_step_def Let_def)
    have "drop (Suc i) st' = (ns, ne, nsp) # drop (Suc (Suc i)) st"
      using assms(1) st' y by (metis Cons_nth_drop_Suc)
    then show ?thesis using False d out' by simp
  qed
qed

lemma contiguous_loop:
  "i < length st \<Longrightarrow> n = length st - 1 - i \<Longrightarrow>
   fold contiguous_step [i..<length st - 1] (st, out) = (st', out') \<Longrightarrow>
   length st' = length st \<and> out' @ [last st'] = out @ contiguous_walk (drop i st)"
proof (induction n arbitrary: i st out)
  case 0
  then have "i = length st - 1" by simp
  moreover have "st \<noteq> []" using 0 by auto
  ultimately show ?case using 0 by (auto simp: drop_last_index)
next
  case (Suc n)
  then have lt: "Suc i < length st" by simp
  obtain st1 out1 where step: "contiguous_step i (st, out) = (st1, out1)"
    by (cases "contiguous_step i (st, out)") auto
  have len: "length st1 = length st" using step by (rule contiguous_step_length)
  have "[i..<length st - 1] = i # [Suc i..<length st - 1]"
    using lt by (simp add: upt_conv_Cons)
  then have "fold contiguous_step [Suc i..<length st1 - 1] (st1, out1) = (st', out')"
    using Suc.prems(3) step len by simp
  moreover have "n = length st1 - 1 - Suc i" using Suc.prems(2) len by simp
  ultimately have "length st' = length st1 \<and> out' @ [last st'] = out1 @ contiguous_walk (drop (Suc i) st1)"
    using Suc.IH [of "Suc i" st1 out1] lt len by simp
  then show ?case using contiguous_step_walk [OF lt step] len by simp
qed

lemma get_contiguous_stamps_eq:
  "stamps \<noteq> [] \<Longrightarrow> get_contiguous_stamps stamps = Inr (contiguous_walk stamps)"
proof -
  assume ne: "stamps \<noteq> []"
  obtain st' out' where f: "fold contiguous_step [0..<length stamps - 1] (stamps, []) = (st', out')"
    by (cases "fold contiguous_step [0..<length stamps - 1] (stamps, [])") auto
  have "length st' = length stamps \<and> out' @ [last st'] = [] @ contiguous_walk (drop 0 stamps)"
    using contiguous_loop [of 0 stamps _ "[]" st' out'] ne f by simp
  then show ?thesis using ne f by (auto simp: get_contiguous_stamps_def)
qed

lemma get_contiguous_stamps_Nil: "get_contiguous_stamps [] = Inl IndexError"
  by (simp add: get_contiguous_stamps_def)


lemma merge_step_length:
  "merge_step i (st, out) = (st', out') \<Longrightarrow> length st' = length st"
  by (auto simp: merge_step_def split: prod.splits if_splits)

lemma merge_step_walk:
  assumes "Suc i < length st" and "merge_step i (st, out) = (st', out')"
  shows "out' @ merge_walk (drop (Suc i) st') = out @ merge_walk (drop i st)"
proof -
  obtain s e sp where x: "st ! i = (s, e, sp)" by (cases "st ! i") auto
  obtain ns ne nsp where y: "st ! Suc i = (ns, ne, nsp)" by (cases "st ! Suc i") auto
  have d: "drop i st = (s, e, sp) # (ns, ne, nsp) # drop (Suc (Suc i)) st"
    using assms(1) x y by (metis Cons_nth_drop_Suc Suc_lessD)
  show ?thesis
  proof (cases "e = ns \<and> sp = nsp")
    case True
    then have st': "st' = st[Suc i := (s, ne, nsp)]" and out': "out' = out"
      using assms(2) x y by (auto simp: merge_step_def)
    have "drop (Suc i) st' = (s, ne, nsp) # drop (Suc (Suc i)) st"
      using assms(1) st' by (simp add: drop_update_cancel Cons_nth_drop_Suc [symmetric])
    then show ?thesis using True d out' by simp
  next
    case False
    then have st': "st' = st" and out': "out' = out @ [(s, e, sp)]"
      using assms(2) x y by (auto simp: merge_step_def)
    have "drop (Suc i) st' = (ns, ne, nsp) # drop (Suc (Suc i)) st"
      using assms(1) st' y by (metis Cons_nth_drop_Suc)
    then show ?thesis using False d out' by auto
  qed
qed

lemma merge_loop:
  "i < length st \<Longrightarrow> n = length st - 1 - i \<Longrightarrow>
   fold merge_step [i..<length st - 1] (st, out) = (st', out') \<Longrightarrow>
   length st' = length st \<and> out' @ [last st'] = out @ merge_walk (drop i st)"
proof (induction n arbitrary: i st out)
  case 0
  then have "i = length st - 1" by simp
  moreover have "st \<noteq> []" using 0 by auto
  ultimately show ?case using 0 by (auto simp: drop_last_index)
next
  case (Suc n)
  then have lt: "Suc i < length st" by simp
  obtain st1 out1 where step: "merge_step i (st, out) = (st1, out1)"
    by (cases "merge_step i (st, out)") auto
  have len: "length st1 = length st" using step by (rule merge_step_length)
  have "[i..<length st - 1] = i # [Suc i..<length st - 1]"
    using lt by (simp add: upt_conv_Cons)
  then have "fold merge_step [Suc i..<length st1 - 1] (st1, out1) = (st', out')"
    using Suc.prems(3) step len by simp
  moreover have "n = length st1 - 1 - Suc i" using Suc.prems(2) len by simp
  ultimately have "length st' = length st1 \<and> out' @ [last st'] = out1 @ merge_walk (drop (Suc i) st1)"
    using Suc.IH [of "Suc i" st1 out1] lt len by simp
  then show ?case using merge_step_walk [OF lt step] len by simp
qed

lemma merge_stamps_eq:
  "stamps \<noteq> [] \<Longrightarrow> merge_stamps stamps = Inr (merge_walk stamps)"
proof -
  assume ne: "stamps \<noteq> []"
  obtain st' out' where f: "fold merge_step [0..<length stamps - 1] (stamps, []) = (st', out')"
    by (cases "fold merge_step [0..<length stamps - 1] (stamps, [])") auto
  have "length st' = length stamps \<and> out' @ [last st'] = [] @ merge_walk (drop 0 stamps)"
    using merge_loop [of 0 stamps _ "[]" st' out'] ne f by simp
  then show ?thesis using ne f by (auto simp: merge_stamps_def)
qed

lemma merge_stamps_Nil: "merge_stamps [] = Inl IndexError"
  by (simp add: merge_stamps_def)

lemma seg_proj [simp]:
  "seg_start (s, e, sp) = s" "seg_end (s, e, sp) = e" "seg_speaker (s, e, sp) = sp"
  by (simp_all add: seg_start_def seg_end_def seg_speaker_def)

lemma contiguous_walk_head:
  "contiguous_walk (x # xs) \<noteq> [] \<and> seg_start (hd (contiguous_walk (x # xs))) = seg_start x"
  by (cases "x # xs" rule: contiguous_walk.cases) auto

lemma contiguous_Cons:
  "zs \<noteq> [] \<Longrightarrow> contiguous (x # zs) = (seg_end x \<le> seg_start (hd zs) \<and> contiguous zs)"
  by (cases zs) auto

lemma contiguous_walk_length: "length (contiguous_walk xs) = length xs"
  by (induction xs rule: contiguous_walk.induct) auto

lemma contiguous_walk_contiguous: "contiguous (contiguous_walk xs)"
proof (induction xs rule: contiguous_walk.induct)
  case (3 start endt speaker next_start next_end next_speaker rest)
  show ?case
  proof (cases "endt > next_start")
    case True
    then show ?thesis
      using 3(1) contiguous_walk_head [of "((next_start + endt) / 2, next_end, next_speaker)" rest]
      by (simp add: contiguous_Cons)
  next
    case False
    then show ?thesis
      using 3(2) contiguous_walk_head [of "(next_start, next_end, next_speaker)" rest]
      by (simp add: contiguous_Cons)
  qed
qed simp_all

lemma contiguous_walk_valid:
  "s' \<le> e \<Longrightarrow> \<forall>z\<in>set rest. valid_segment z \<Longrightarrow> sorted (e # map seg_end rest) \<Longrightarrow>
   sorted (map seg_start rest) \<Longrightarrow>
   (case rest of [] \<Rightarrow> True | y # _ \<Rightarrow> 2 * s' \<le> seg_start y + e) \<Longrightarrow>
   \<forall>z\<in>set (contiguous_walk ((s', e, sp) # rest)). valid_segment z"
proof (induction rest arbitrary: s' e sp)
  case Nil
  then show ?case by (simp add: valid_segment_def)
next
  case (Cons y rest)
  obtain ns ne nsp where y: "y = (ns, ne, nsp)" by (cases y) auto
  have v: "ns \<le> ne" and le: "e \<le> ne" and h: "2 * s' \<le> ns + e"
    using Cons.prems y by (auto simp: valid_segment_def)
  have rest: "\<forall>z\<in>set rest. valid_segment z" "sorted (ne # map seg_end rest)"
    "sorted (map seg_start rest)"
    using Cons.prems y by auto
  have nxt: "case rest of [] \<Rightarrow> True | y2 # _ \<Rightarrow> ns \<le> seg_start y2"
    using Cons.prems(4) y by (auto split: list.splits)
  show ?case
  proof (cases "e > ns")
    case True
    let ?avg = "(ns + e) / 2"
    have 1: "?avg \<le> ne" using v le by simp
    have 2: "case rest of [] \<Rightarrow> True | y2 # _ \<Rightarrow> 2 * ?avg \<le> seg_start y2 + ne"
      using nxt le by (auto split: list.splits)
    have "\<forall>z\<in>set (contiguous_walk ((?avg, ne, nsp) # rest)). valid_segment z"
      using Cons.IH [OF 1 rest 2] .
    moreover have "valid_segment (s', ?avg, sp)"
      using h by (simp add: valid_segment_def)
    ultimately show ?thesis using True y by simp
  next
    case False
    have 2: "case rest of [] \<Rightarrow> True | y2 # _ \<Rightarrow> 2 * ns \<le> seg_start y2 + ne"
      using nxt v by (auto split: list.splits)
    have "\<forall>z\<in>set (contiguous_walk ((ns, ne, nsp) # rest)). valid_segment z"
      using Cons.IH [OF v rest 2] .
    moreover have "valid_segment (s', e, sp)"
      using Cons.prems(1) by (simp add: valid_segment_def)
    ultimately show ?thesis using False y by simp
  qed
qed

lemma contiguous_walk_valid_all:
  assumes "ordered_by_start xs" and "ordered_by_end xs" and "\<forall>z\<in>set xs. valid_segment z"
  shows "\<forall>z\<in>set (contiguous_walk xs). valid_segment z"
proof (cases xs)
  case Nil
  then show ?thesis by simp
next
  case (Cons x rest)
  obtain s e sp where x: "x = (s, e, sp)" by (cases x) auto
  have "s \<le> e" using assms(3) Cons x by (simp add: valid_segment_def)
  moreover have "\<forall>z\<in>set rest. valid_segment z" using assms(3) Cons by simp
  moreover have "sorted (e # map seg_end rest)"
    using assms(2) Cons x by (simp add: ordered_by_end_def)
  moreover have "sorted (map seg_start rest)"
    using assms(1) Cons by (simp add: ordered_by_start_def)
  moreover have "case rest of [] \<Rightarrow> True | y # _ \<Rightarrow> 2 * s \<le> seg_start y + e"
    using assms(1) Cons x \<open>s \<le> e\<close>
    by (auto simp: ordered_by_start_def split: list.splits)
  ultimately show ?thesis using contiguous_walk_valid Cons x by blast
qed

lemma contiguous_walk_fixpoint: "contiguous xs \<Longrightarrow> contiguous_walk xs = xs"
  by (induction xs rule: contiguous_walk.induct) auto

lemma merge_walk_fixpoint: "no_mergeable_pair xs \<Longrightarrow> merge_walk xs = xs"
  by (induction xs rule: merge_walk.induct) auto

section \<open>Properties of the reconciler\<close>

text \<open>
  C1. For every non-empty input sequence in chronological order of start,
  \<^verbatim>\<open>get_contiguous_stamps\<close> returns a list, of the input's length, in which every adjacent
  pair satisfies \<open>end[i] \<le> start[i+1]\<close>. (The order of the input is not used by the proof:
  each emitted end is either the average that also becomes the next start, or an end that
  was compared with the next start.)
\<close>

theorem get_contiguous_stamps_contiguous:
  assumes "stamps \<noteq> []" and "ordered_by_start stamps"
  shows "\<exists>out. get_contiguous_stamps stamps = Inr out \<and> length out = length stamps \<and> contiguous out"
  using assms(1)
  by (simp add: get_contiguous_stamps_eq contiguous_walk_length contiguous_walk_contiguous)

theorem get_contiguous_stamps_contiguous_witness:
  "[(0, 5, 0), (4, 9, 1), (9, 19 / 2, 0)] \<noteq> ([] :: stamp list) \<and>
   ordered_by_start [(0, 5, 0), (4, 9, 1), (9, 19 / 2, 0)] \<and>
   (\<exists>out. get_contiguous_stamps [(0, 5, 0), (4, 9, 1), (9, 19 / 2, 0)] = Inr out \<and>
      length out = length [(0, 5, 0), (4, 9, 1), (9, 19 / 2, 0) :: stamp] \<and> contiguous out)"
proof -
  have h1: "[(0, 5, 0), (4, 9, 1), (9, 19 / 2, 0)] \<noteq> ([] :: stamp list)" by simp
  have h2: "ordered_by_start [(0, 5, 0), (4, 9, 1), (9, 19 / 2, 0)]"
    by (simp add: ordered_by_start_def)
  show ?thesis using h1 h2 get_contiguous_stamps_contiguous [OF h1 h2] by blast
qed

text \<open>
  C4, as stated, fails: a segment nested inside its predecessor gets a start after its own
  end. The input \<open>[(0, 10, 0), (1, 2, 1)]\<close> is ordered by start and both segments have
  \<open>start \<le> end\<close>; the second output segment is \<open>(5.5, 2, 1)\<close>.
\<close>

theorem get_contiguous_stamps_valid_counterexample:
  "ordered_by_start [(0, 10, 0), (1, 2, 1)] \<and>
   valid_segment (0, 10, 0) \<and> valid_segment (1, 2, 1) \<and>
   get_contiguous_stamps [(0, 10, 0), (1, 2, 1)] = Inr [(0, 11 / 2, 0), (11 / 2, 2, 1)] \<and>
   \<not> valid_segment (11 / 2, 2, 1)"
  by (simp add: get_contiguous_stamps_eq ordered_by_start_def valid_segment_def)

text \<open>
  C4, amended. For every non-empty input sequence that is in chronological order of start,
  whose ends are also in non-decreasing order (no segment ends before its predecessor
  ends) and whose segments all satisfy \<open>start \<le> end\<close>, every segment returned by
  \<^verbatim>\<open>get_contiguous_stamps\<close> satisfies \<open>start \<le> end\<close>.
\<close>

theorem get_contiguous_stamps_valid:
  assumes "stamps \<noteq> []" and "ordered_by_start stamps" and "ordered_by_end stamps"
    and "list_all valid_segment stamps"
  shows "\<exists>out. get_contiguous_stamps stamps = Inr out \<and> list_all valid_segment out"
  using assms contiguous_walk_valid_all [of stamps]
  by (simp add: get_contiguous_stamps_eq list_all_iff)

theorem get_contiguous_stamps_valid_witness:
  "[(0, 5, 0), (4, 9, 1), (9, 19 / 2, 0)] \<noteq> ([] :: stamp list) \<and>
   ordered_by_start [(0, 5, 0), (4, 9, 1), (9, 19 / 2, 0)] \<and>
   ordered_by_end [(0, 5, 0), (4, 9, 1), (9, 19 / 2, 0)] \<and>
   list_all valid_segment [(0, 5, 0), (4, 9, 1), (9, 19 / 2, 0)] \<and>
   (\<exists>out. get_contiguous_stamps [(0, 5, 0), (4, 9, 1), (9, 19 / 2, 0)] = Inr out \<and>
      list_all valid_segment out)"
proof -
  have h1: "[(0, 5, 0), (4, 9, 1), (9, 19 / 2, 0)] \<noteq> ([] :: stamp list)" by simp
  have h2: "ordered_by_start [(0, 5, 0), (4, 9, 1), (9, 19 / 2, 0)]"
    by (simp add: ordered_by_start_def)
  have h3: "ordered_by_end [(0, 5, 0), (4, 9, 1), (9, 19 / 2, 0)]"
    by (simp add: ordered_by_end_def)
  have h4: "list_all valid_segment [(0, 5, 0), (4, 9, 1), (9, 19 / 2, 0)]"
    by (simp add: valid_segment_def)
  show ?thesis using h1 h2 h3 h4 get_contiguous_stamps_valid [OF h1 h2 h3 h4] by blast
qed

text \<open>
  C5. On a non-empty sequence that is already reconciled (every adjacent pair has
  \<open>end[i] \<le> start[i+1]\<close>, and no adjacent pair shares both a boundary and a speaker),
  \<^verbatim>\<open>get_contiguous_stamps\<close> followed by \<^verbatim>\<open>merge_stamps\<close> returns the sequence unchanged.
\<close>

theorem reconcile_fixpoint:
  assumes "stamps \<noteq> []" and "contiguous stamps" and "no_mergeable_pair stamps"
  shows "reconcile stamps = Inr stamps"
  using assms
  by (simp add: reconcile_def get_contiguous_stamps_eq contiguous_walk_fixpoint
      merge_stamps_eq merge_walk_fixpoint)

theorem reconcile_fixpoint_witness:
  "[(0, 9 / 2, 0), (9 / 2, 9, 1), (9, 19 / 2, 0)] \<noteq> ([] :: stamp list) \<and>
   contiguous [(0, 9 / 2, 0), (9 / 2, 9, 1), (9, 19 / 2, 0)] \<and>
   no_mergeable_pair [(0, 9 / 2, 0), (9 / 2, 9, 1), (9, 19 / 2, 0)] \<and>
   reconcile [(0, 9 / 2, 0), (9 / 2, 9, 1), (9, 19 / 2, 0)]
     = Inr [(0, 9 / 2, 0), (9 / 2, 9, 1), (9, 19 / 2, 0)]"
proof -
  have h1: "[(0, 9 / 2, 0), (9 / 2, 9, 1), (9, 19 / 2, 0)] \<noteq> ([] :: stamp list)" by simp
  have h2: "contiguous [(0, 9 / 2, 0), (9 / 2, 9, 1), (9, 19 / 2, 0)]" by simp
  have h3: "no_mergeable_pair [(0, 9 / 2, 0), (9 / 2, 9, 1), (9, 19 / 2, 0)]" by simp
  show ?thesis using h1 h2 h3 reconcile_fixpoint [OF h1 h2 h3] by blast
qed

section \<open>Parameter selection and the empty-audio paths\<close>

text \<open>
  C3, as stated, fails for a service configured with a number of scales other than five:
  in the middle tier the five fixed windows are zipped strictly with the configured
  default shift lengths, and the call raises ValueError. Here a service with three scales
  is constructed without error and asked for the parameters of an audio of 3600 seconds.
\<close>

theorem select_parameters_middle_tier_counterexample:
  "DiarizeService_init ''cpu'' [0] [1.5, 1.0, 0.5] [0.75, 0.5, 0.25] [1, 1, 1] 8 =
     Inr \<lparr> svc_device = ''cpu'', models = [0], svc_max_num_speakers = 8,
           default_window_lengths = [1.5, 1.0, 0.5],
           default_shift_lengths = [0.75, 0.5, 0.25],
           default_multiscale_weights = [1, 1, 1],
           default_segmentation_batch_size = 128,
           default_scale_dict = [(0, 1.5, 0.75), (1, 1.0, 0.5), (2, 0.5, 0.25)] \<rparr> \<and>
   select_parameters
     \<lparr> svc_device = ''cpu'', models = [0], svc_max_num_speakers = 8,
       default_window_lengths = [1.5, 1.0, 0.5],
       default_shift_lengths = [0.75, 0.5, 0.25],
       default_multiscale_weights = [1, 1, 1],
       default_segmentation_batch_size = 128,
       default_scale_dict = [(0, 1.5, 0.75), (1, 1.0, 0.5), (2, 0.5, 0.25)] \<rparr> 3600
     = Inl ValueError"
  by (simp add: DiarizeService_init_def select_parameters_def zip_strict_def enumerate_eq_zip upt_rec)

text \<open>
  C3, amended. For a service constructed from the given lists, the parameters are a
  function of the audio duration alone: below 3600 seconds the configured default
  windows, shifts and weights, with batch size 64 if there are more than three weights,
  else 128 if more than one, else 256; from 3600 up to, not including, 10800 seconds, and
  provided the configured default shift list has exactly five entries, the windows
  \<open>[3.0, 2.5, 2.0, 1.5, 1.0]\<close> paired with the default shifts, the default weights and batch
  size 64 (with any other number of default shifts the selection raises ValueError); from
  10800 seconds on, windows \<open>[3.0, 2.0, 1.0]\<close>, shifts \<open>[0.75, 0.5, 0.25]\<close>, weights
  \<open>[1.0, 1.0, 1.0]\<close> and batch size 32. The boundaries 3600 and 10800 belong to the upper
  tier.
\<close>

theorem select_parameters_tiers:
  assumes "DiarizeService_init device device_index window_lengths shift_lengths
             multiscale_weights max_num_speakers = Inr svc"
  shows "(audio_duration < 3600 \<longrightarrow>
            select_parameters svc audio_duration =
              Inr \<lparr> cfg_scale_dict = enumerate 0 (zip window_lengths shift_lengths),
                    cfg_segmentation_batch_size =
                      (if length multiscale_weights > 3 then 64
                       else if length multiscale_weights > 1 then 128 else 256),
                    cfg_multiscale_weights = multiscale_weights \<rparr>) \<and>
         (3600 \<le> audio_duration \<and> audio_duration < 10800 \<and> length shift_lengths = 5 \<longrightarrow>
            select_parameters svc audio_duration =
              Inr \<lparr> cfg_scale_dict = enumerate 0 (zip [3.0, 2.5, 2.0, 1.5, 1.0] shift_lengths),
                    cfg_segmentation_batch_size = 64,
                    cfg_multiscale_weights = multiscale_weights \<rparr>) \<and>
         (3600 \<le> audio_duration \<and> audio_duration < 10800 \<and> length shift_lengths \<noteq> 5 \<longrightarrow>
            select_parameters svc audio_duration = Inl ValueError) \<and>
         (10800 \<le> audio_duration \<longrightarrow>
            select_parameters svc audio_duration =
              Inr \<lparr> cfg_scale_dict = [(0, 3.0, 0.75), (1, 2.0, 0.5), (2, 1.0, 0.25)],
                    cfg_segmentation_batch_size = 32,
                    cfg_multiscale_weights = [1.0, 1.0, 1.0] \<rparr>)"
proof -
  have svc: "svc = \<lparr> svc_device = device, models = device_index,
      svc_max_num_speakers = max_num_speakers,
      default_window_lengths = window_lengths, default_shift_lengths = shift_lengths,
      default_multiscale_weights = multiscale_weights,
      default_segmentation_batch_size =
        (if length multiscale_weights > 3 then 64
         else if length multiscale_weights > 1 then 128 else 256),
      default_scale_dict = enumerate 0 (zip window_lengths shift_lengths) \<rparr>"
    using assms by (auto simp: DiarizeService_init_def zip_strict_def split: if_splits)
  have top: "enumerate 0 (zip [3.0, 2.0, 1.0] [0.75, 0.5, 0.25 :: real])
      = [(0, 3.0, 0.75), (1, 2.0, 0.5), (2, 1.0 :: real, 0.25)]"
    by (simp add: enumerate_eq_zip upt_rec)
  show ?thesis
    by (simp add: svc select_parameters_def zip_strict_def top)
qed

theorem select_parameters_tiers_witness:
  "\<exists>svc. DiarizeService_init ''cuda'' [0] [1.5, 1.25, 1.0, 0.75, 0.5]
            [0.75, 0.625, 0.5, 0.375, 0.25] [1, 1, 1, 1, 1] 8 = Inr svc \<and>
     select_parameters svc 3599.9 =
       Inr \<lparr> cfg_scale_dict = [(0, 1.5, 0.75), (1, 1.25, 0.625), (2, 1.0, 0.5),
                                (3, 0.75, 0.375), (4, 0.5, 0.25)],
             cfg_segmentation_batch_size = 64,
             cfg_multiscale_weights = [1, 1, 1, 1, 1] \<rparr> \<and>
     select_parameters svc 3600 =
       Inr \<lparr> cfg_scale_dict = [(0, 3.0, 0.75), (1, 2.5, 0.625), (2, 2.0, 0.5),
                                (3, 1.5, 0.375), (4, 1.0, 0.25)],
             cfg_segmentation_batch_size = 64,
             cfg_multiscale_weights = [1, 1, 1, 1, 1] \<rparr> \<and>
     select_parameters svc 10800 =
       Inr \<lparr> cfg_scale_dict = [(0, 3.0, 0.75), (1, 2.0, 0.5), (2, 1.0, 0.25)],
             cfg_segmentation_batch_size = 32,
             cfg_multiscale_weights = [1.0, 1.0, 1.0] \<rparr>"
proof -
  obtain svc where i: "DiarizeService_init ''cuda'' [0] [1.5, 1.25, 1.0, 0.75, 0.5]
            [0.75, 0.625, 0.5, 0.375, 0.25] [1, 1, 1, 1, 1] 8 = Inr svc"
    by (simp add: DiarizeService_init_def zip_strict_def)
  show ?thesis
    using i select_parameters_tiers [OF i, of "3599.9"] select_parameters_tiers [OF i, of 3600]
      select_parameters_tiers [OF i, of 10800]
    by (simp add: enumerate_eq_zip upt_rec)
qed

text \<open>
  C10. When the VAD service returns no speech interval, \<^verbatim>\<open>DiarizeService.__call__\<close>
  returns \<^verbatim>\<open>None\<close> (not a list), whatever the service's configuration, the duration and
  the model index are, and the only collaborator called is the VAD service: no parameter
  is selected and neither segmentation, clustering nor reconciliation runs.
\<close>

theorem DiarizeService_call_empty_vad:
  assumes "vad_service waveform = []"
  shows "DiarizeService_call svc vad_service segmentation clustering waveform audio_duration
           oracle_num_speakers model_index = (Inr None, [VadCall])"
  using assms by (simp add: DiarizeService_call_def)

theorem DiarizeService_call_empty_vad_witness:
  "silent_vad 0 = [] \<and>
   DiarizeService_call
     \<lparr> svc_device = ''cpu'', models = [0], svc_max_num_speakers = 8,
       default_window_lengths = [1.5, 1.0, 0.5],
       default_shift_lengths = [0.75, 0.5, 0.25],
       default_multiscale_weights = [1, 1, 1],
       default_segmentation_batch_size = 128,
       default_scale_dict = [(0, 1.5, 0.75), (1, 1.0, 0.5), (2, 0.5, 0.25)] \<rparr>
     silent_vad (\<lambda>i w b v d ws. ()) (\<lambda>i e n. [(0, 1, 0)]) 0 5000 2 7
     = (Inr None, [VadCall])"
proof -
  have h: "silent_vad 0 = []" by (simp add: silent_vad_def)
  show ?thesis
    using h DiarizeService_call_empty_vad [where vad_service = silent_vad and waveform = 0, OF h]
    by simp
qed

text \<open>
  C8. For every duration, \<^verbatim>\<open>early_return\<close> yields exactly one placeholder utterance, from
  0 to the duration, with speaker \<^verbatim>\<open>None\<close> and words \<^verbatim>\<open>None\<close>, and process times whose
  total, transcription and post-processing entries are 0 (the diarization entry is
  \<^verbatim>\<open>None\<close>); it returns a value and raises nothing.
\<close>

theorem early_return_placeholder:
  "(case early_return duration of
      (utterances, process_times, d) \<Rightarrow>
        length utterances = 1 \<and>
        u_start (utterances ! 0) = 0 \<and> u_end (utterances ! 0) = duration \<and>
        u_speaker (utterances ! 0) = None \<and> u_words (utterances ! 0) = None \<and>
        u_text (utterances ! 0) = ''<EMPTY AUDIO>'' \<and>
        pt_total process_times = 0 \<and> pt_transcription process_times = 0 \<and> pt_post_processing process_times = 0 \<and>
        pt_diarization process_times = None \<and> d = duration)"
  by (simp add: early_return_def)

theorem early_return_placeholder_witness:
  "early_return 12.5 =
     ([\<lparr> u_text = ''<EMPTY AUDIO>'', u_start = 0, u_end = 12.5, u_speaker = None,
         u_words = None \<rparr>],
      \<lparr> pt_total = 0, pt_transcription = 0, pt_diarization = None, pt_post_processing = 0 \<rparr>,
      12.5)"
  using early_return_placeholder [of "12.5"]
  by (simp add: early_return_def)

section \<open>The prompt\<close>

lemma strip_Nil_iff: "strip s = [] \<longleftrightarrow> list_all py_isspace s"
proof
  assume "strip s = []"
  then have a: "\<forall>x\<in>set (dropWhile py_isspace s). py_isspace x"
    by (simp add: strip_def dropWhile_eq_Nil_conv)
  have "dropWhile py_isspace s = []"
  proof (rule ccontr)
    assume n: "dropWhile py_isspace s \<noteq> []"
    then have "\<not> py_isspace (hd (dropWhile py_isspace s))" by (rule hd_dropWhile)
    moreover have "hd (dropWhile py_isspace s) \<in> set (dropWhile py_isspace s)"
      using n by simp
    ultimately show False using a by blast
  qed
  then show "list_all py_isspace s" by (simp add: dropWhile_eq_Nil_conv list_all_iff)
next
  assume "list_all py_isspace s"
  then have "dropWhile py_isspace s = []" by (simp add: dropWhile_eq_Nil_conv list_all_iff)
  then show "strip s = []" by (simp add: strip_def del: dropWhile_eq_Nil_conv)
qed

lemma dropWhile_hd_self: "s \<noteq> [] \<Longrightarrow> \<not> P (hd s) \<Longrightarrow> dropWhile P s = s"
  by (cases s) auto

lemma strip_trimmed: "s \<noteq> [] \<Longrightarrow> \<not> py_isspace (hd s) \<Longrightarrow> \<not> py_isspace (last s) \<Longrightarrow> strip s = s"
  by (simp add: strip_def dropWhile_hd_self hd_rev)

lemma join_ends:
  "v \<noteq> [] \<Longrightarrow> list_all (\<lambda>s. s \<noteq> []) v \<Longrightarrow>
   join sep v \<noteq> [] \<and> hd (join sep v) = hd (hd v) \<and> last (join sep v) = last (last v)"
  by (induction sep v rule: join.induct) auto

lemma filter_nonempty_trimmed: "list_all trimmed v \<Longrightarrow> filter (\<lambda>s. s \<noteq> []) v = v"
  by (induction v) (auto simp: trimmed_def)

lemma build_prompt_trimmed:
  assumes "v \<noteq> []" and "list_all trimmed v"
  shows "build_prompt (Some v) = Some (''Vocab: '' @ join '', '' v)"
    and "spec_prompt (Some v) = Some (''Vocab: '' @ join '', '' v)"
proof -
  have ne: "list_all (\<lambda>s. s \<noteq> []) v" using assms(2) by (auto simp: list_all_iff trimmed_def)
  have hdv: "trimmed (hd v)" and lastv: "trimmed (last v)"
    using assms by (auto simp: list_all_iff)
  have j: "join '', '' v \<noteq> []" "hd (join '', '' v) = hd (hd v)"
    "last (join '', '' v) = last (last v)"
    using join_ends [OF assms(1) ne] by auto
  have sj: "strip (join '', '' v) = join '', '' v"
    using j hdv lastv by (simp add: strip_trimmed trimmed_def)
  have s0: "strip (hd v) = hd v" using hdv by (simp add: strip_trimmed trimmed_def)
  have h0: "hd v \<noteq> []" using hdv by (simp add: trimmed_def)
  show "build_prompt (Some v) = Some (''Vocab: '' @ join '', '' v)"
    using assms(1) sj s0 h0 by (simp add: build_prompt_def hd_conv_nth)
  have "\<not> list_all (\<lambda>s. strip s = []) v"
    using assms(1) s0 h0 by (cases v) auto
  then show "spec_prompt (Some v) = Some (''Vocab: '' @ join '', '' v)"
    using assms(2) by (simp add: spec_prompt_def filter_nonempty_trimmed)
qed

lemma build_prompt_eq:
  "build_prompt vocab =
     (case vocab of
        None \<Rightarrow> None
      | Some v \<Rightarrow>
          if v = [] \<or> list_all py_isspace (hd v) then None
          else Some (''Vocab: '' @ strip (join '', '' v)))"
  by (auto simp: build_prompt_def strip_Nil_iff hd_conv_nth split: option.splits)

lemma call_prompt_only:
  "build_prompt vocab' = build_prompt vocab \<Longrightarrow>
   TranscribeService_call model st audio source_lang model_index suppress_blank vocab'
     word_timestamps internal_vad repetition_penalty compression_ratio_threshold
     log_prob_threshold no_speech_threshold condition_on_previous_text =
   TranscribeService_call model st audio source_lang model_index suppress_blank vocab
     word_timestamps internal_vad repetition_penalty compression_ratio_threshold
     log_prob_threshold no_speech_threshold condition_on_previous_text"
  by (simp add: TranscribeService_call_def)

text \<open>
  C6, as stated, fails in both directions. The code tests only the first entry of the
  vocabulary: \<open>["", "a"]\<close> is neither empty nor whitespace-only, yet no prompt is built.
  And the code joins all the entries, the empty ones too: \<open>["a", "", "b"]\<close> gives
  \<open>"Vocab: a, , b"\<close>.
\<close>

theorem build_prompt_counterexample:
  "build_prompt (Some ['''', ''a'']) = None \<and>
   spec_prompt (Some ['''', ''a'']) = Some ''Vocab: a'' \<and>
   build_prompt (Some [''a'', '''', ''b'']) = Some ''Vocab: a, , b'' \<and>
   spec_prompt (Some [''a'', '''', ''b'']) = Some ''Vocab: a, b''"
  by (simp add: build_prompt_def spec_prompt_def strip_def py_isspace_def)

text \<open>
  C6, amended. The prompt is \<^verbatim>\<open>None\<close> exactly when the vocabulary is \<^verbatim>\<open>None\<close>, is empty,
  or has a first entry that is empty or whitespace-only; otherwise it is \<open>"Vocab: "\<close>
  followed by all the entries (empty ones included) joined with \<open>", "\<close>, the joined string
  stripped of leading and trailing whitespace. When every entry is non-empty and neither
  begins nor ends with whitespace, this is \<open>"Vocab: "\<close> followed by the entries joined with
  \<open>", "\<close>, the prompt of the specification. The prompt is the only use made of the
  vocabulary: two vocabularies with the same prompt give the same call.
\<close>

theorem build_prompt_cases:
  "build_prompt vocab =
     (case vocab of
        None \<Rightarrow> None
      | Some v \<Rightarrow>
          if v = [] \<or> list_all py_isspace (hd v) then None
          else Some (''Vocab: '' @ strip (join '', '' v))) \<and>
   (\<forall>v. vocab = Some v \<and> v \<noteq> [] \<and> list_all trimmed v \<longrightarrow>
      build_prompt vocab = Some (''Vocab: '' @ join '', '' v) \<and>
      build_prompt vocab = spec_prompt vocab) \<and>
   (\<forall>vocab'. build_prompt vocab' = build_prompt vocab \<longrightarrow>
      TranscribeService_call model st audio source_lang model_index suppress_blank vocab'
        word_timestamps internal_vad repetition_penalty compression_ratio_threshold
        log_prob_threshold no_speech_threshold condition_on_previous_text =
      TranscribeService_call model st audio source_lang model_index suppress_blank vocab
        word_timestamps internal_vad repetition_penalty compression_ratio_threshold
        log_prob_threshold no_speech_threshold condition_on_previous_text)"
proof (intro conjI allI impI)
  show "build_prompt vocab =
     (case vocab of
        None \<Rightarrow> None
      | Some v \<Rightarrow>
          if v = [] \<or> list_all py_isspace (hd v) then None
          else Some (''Vocab: '' @ strip (join '', '' v)))"
    by (rule build_prompt_eq)
next
  fix v
  assume a: "vocab = Some v \<and> v \<noteq> [] \<and> list_all trimmed v"
  then show "build_prompt vocab = Some (''Vocab: '' @ join '', '' v)"
    by (simp add: build_prompt_trimmed(1))
  from a show "build_prompt vocab = spec_prompt vocab"
    by (simp add: build_prompt_trimmed)
next
  fix vocab'
  assume "build_prompt vocab' = build_prompt vocab"
  then show "TranscribeService_call model st audio source_lang model_index suppress_blank vocab'
        word_timestamps internal_vad repetition_penalty compression_ratio_threshold
        log_prob_threshold no_speech_threshold condition_on_previous_text =
      TranscribeService_call model st audio source_lang model_index suppress_blank vocab
        word_timestamps internal_vad repetition_penalty compression_ratio_threshold
        log_prob_threshold no_speech_threshold condition_on_previous_text"
    by (rule call_prompt_only)
qed

theorem build_prompt_cases_witness:
  "Some [''alpha'', ''beta''] = Some [''alpha'', ''beta''] \<and>
   [''alpha'', ''beta''] \<noteq> [] \<and> list_all trimmed [''alpha'', ''beta''] \<and>
   build_prompt (Some [''alpha'', ''beta'']) = Some ''Vocab: alpha, beta'' \<and>
   build_prompt (Some [''alpha'', ''beta'']) = spec_prompt (Some [''alpha'', ''beta'']) \<and>
   build_prompt (Some [''alpha'', ''beta '']) = build_prompt (Some [''alpha'', ''beta'']) \<and>
   TranscribeService_call scripted_model [] (Single ()) ''en'' 0 False
       (Some [''alpha'', ''beta '']) True False 1 2.4 (- 1) 0.6 True =
     TranscribeService_call scripted_model [] (Single ()) ''en'' 0 False
       (Some [''alpha'', ''beta'']) True False 1 2.4 (- 1) 0.6 True"
proof -
  have h: "Some [''alpha'', ''beta''] = Some [''alpha'', ''beta''] \<and>
      [''alpha'', ''beta''] \<noteq> [] \<and> list_all trimmed [''alpha'', ''beta'']"
    by (simp add: trimmed_def py_isspace_def)
  have p: "build_prompt (Some [''alpha'', ''beta '']) = build_prompt (Some [''alpha'', ''beta''])"
    by (simp add: build_prompt_def strip_def py_isspace_def)
  note t = build_prompt_cases [where vocab = "Some [''alpha'', ''beta'']"
      and model = scripted_model and st = "[]" and audio = "Single ()"
      and source_lang = "''en''" and model_index = 0 and suppress_blank = False
      and word_timestamps = True and internal_vad = False and repetition_penalty = 1
      and compression_ratio_threshold = "2.4" and log_prob_threshold = "- 1"
      and no_speech_threshold = "0.6" and condition_on_previous_text = True]
  have a0: "build_prompt (Some [''alpha'', ''beta'']) = Some (''Vocab: '' @ join '', '' [''alpha'', ''beta'']) \<and>
      build_prompt (Some [''alpha'', ''beta'']) = spec_prompt (Some [''alpha'', ''beta''])"
    using t h by blast
  have a1: "build_prompt (Some [''alpha'', ''beta'']) = Some ''Vocab: alpha, beta''"
    using a0 by simp
  have a2: "build_prompt (Some [''alpha'', ''beta'']) = spec_prompt (Some [''alpha'', ''beta''])"
    using a0 by blast
  have b: "TranscribeService_call scripted_model [] (Single ()) ''en'' 0 False
       (Some [''alpha'', ''beta '']) True False 1 2.4 (- 1) 0.6 True =
     TranscribeService_call scripted_model [] (Single ()) ''en'' 0 False
       (Some [''alpha'', ''beta'']) True False 1 2.4 (- 1) 0.6 True"
    using t p by blast
  show ?thesis using h p a1 a2 b by blast
qed

section \<open>The transcription calls\<close>

text \<open>
  C2, as stated, fails for a caller that had the internal VAD on: the retry flips the
  setting, so its VAD filter is off. With \<^verbatim>\<open>internal_vad=True\<close> and a model that returns no
  segment, the second of the two calls has \<^verbatim>\<open>vad_filter=False\<close>.
\<close>

theorem TranscribeService_call_fallback_counterexample:
  "kw_vad_filter
     (snd (snd (TranscribeService_call scripted_model [] (Single ()) ''en'' 0 False None True
                  True 1 2.4 (- 1) 0.6 True)) ! 1) = False \<and>
   length (snd (snd (TranscribeService_call scripted_model [] (Single ()) ''en'' 0 False None
                  True True 1 2.4 (- 1) 0.6 True))) = 2"
  by (simp add: TranscribeService_call_def scripted_model_def Let_def)

text \<open>
  C2, amended. In a single-channel call the model is first invoked with the caller's
  options. If that pass yields segments they are returned and there is no other
  invocation. If it yields none, the model is invoked exactly once more, with the same
  arguments except that the VAD filter is the negation of the caller's \<^verbatim>\<open>internal_vad\<close> (on
  exactly when the caller had it off), suppress-blank is off, word timestamps are on and
  no VAD parameters are passed; the segments of this second attempt are returned, as a
  value and not as an error, also when there are none. There is never a third
  invocation.
\<close>

theorem TranscribeService_call_fallback:
  "case TranscribeService_call model st (Single a) source_lang model_index suppress_blank vocab
          word_timestamps internal_vad repetition_penalty compression_ratio_threshold
          log_prob_threshold no_speech_threshold condition_on_previous_text of
     (result, st', calls) \<Rightarrow>
       hd calls =
         \<lparr> kw_language = source_lang,
           kw_initial_prompt = build_prompt vocab,
           kw_repetition_penalty = repetition_penalty,
           kw_compression_ratio_threshold = compression_ratio_threshold,
           kw_log_prob_threshold = log_prob_threshold,
           kw_no_speech_threshold = no_speech_threshold,
           kw_condition_on_previous_text = condition_on_previous_text,
           kw_suppress_blank = suppress_blank,
           kw_word_timestamps = word_timestamps,
           kw_vad_filter = internal_vad,
           kw_vad_parameters = Some service_vad_parameters \<rparr> \<and>
       (case model st a (hd calls) of
          (segments, st1) \<Rightarrow>
            if segments = [] then
              calls = [hd calls,
                       (hd calls) \<lparr> kw_suppress_blank := False, kw_word_timestamps := True,
                                    kw_vad_filter := \<not> internal_vad,
                                    kw_vad_parameters := None \<rparr>] \<and>
              result = Inr (SingleOut (fst (model st1 a (calls ! 1)))) \<and>
              st' = snd (model st1 a (calls ! 1))
            else calls = [hd calls] \<and> result = Inr (SingleOut segments) \<and> st' = st1)"
  by (simp add: TranscribeService_call_def Let_def split: prod.splits)

theorem TranscribeService_call_fallback_witness:
  "TranscribeService_call scripted_model
     [[], [\<lparr> s_start = 0, s_end = 1, s_text = ''a'', s_words = Some [] \<rparr>,
           \<lparr> s_start = 1, s_end = 2, s_text = ''b'', s_words = Some [] \<rparr>]]
     (Single ()) ''en'' 0 True None False False 1 2.4 (- 1) 0.6 True =
   (Inr (SingleOut [\<lparr> s_start = 0, s_end = 1, s_text = ''a'', s_words = Some [] \<rparr>,
                    \<lparr> s_start = 1, s_end = 2, s_text = ''b'', s_words = Some [] \<rparr>]),
    [],
    [\<lparr> kw_language = ''en'', kw_initial_prompt = None, kw_repetition_penalty = 1,
       kw_compression_ratio_threshold = 2.4, kw_log_prob_threshold = - 1,
       kw_no_speech_threshold = 0.6, kw_condition_on_previous_text = True,
       kw_suppress_blank = True, kw_word_timestamps = False, kw_vad_filter = False,
       kw_vad_parameters = Some service_vad_parameters \<rparr>,
     \<lparr> kw_language = ''en'', kw_initial_prompt = None, kw_repetition_penalty = 1,
       kw_compression_ratio_threshold = 2.4, kw_log_prob_threshold = - 1,
       kw_no_speech_threshold = 0.6, kw_condition_on_previous_text = True,
       kw_suppress_blank = False, kw_word_timestamps = True, kw_vad_filter = True,
       kw_vad_parameters = None \<rparr>])"
  using TranscribeService_call_fallback [where model = scripted_model
      and st = "[[], [\<lparr> s_start = 0, s_end = 1, s_text = ''a'', s_words = Some [] \<rparr>,
                     \<lparr> s_start = 1, s_end = 2, s_text = ''b'', s_words = Some [] \<rparr>]]"
      and a = "()" and source_lang = "''en''" and model_index = 0 and suppress_blank = True
      and vocab = None and word_timestamps = False and internal_vad = False
      and repetition_penalty = 1 and compression_ratio_threshold = "2.4"
      and log_prob_threshold = "- 1" and no_speech_threshold = "0.6"
      and condition_on_previous_text = True]
  by (simp add: TranscribeService_call_def scripted_model_def build_prompt_def Let_def)

lemma segments_loop_eq:
  "segments_loop speaker_id segments acc =
     (case find (\<lambda>segment. \<not> has_words segment) segments of
        None \<Rightarrow>
          Inr (acc @ map (\<lambda>segment.
                 \<lparr> sd_start = w_start (hd (the (s_words segment))),
                   sd_end = w_end (last (the (s_words segment))),
                   sd_text = s_text segment,
                   sd_words = map word_to_dict (the (s_words segment)),
                   sd_speaker = speaker_id \<rparr>) segments)
      | Some bad \<Rightarrow> (case s_words bad of None \<Rightarrow> Inl TypeError | Some ws \<Rightarrow> Inl IndexError))"
proof (induction segments arbitrary: acc)
  case Nil
  then show ?case by simp
next
  case (Cons segment segments)
  show ?case
  proof (cases "s_words segment")
    case None
    then show ?thesis by (simp add: segment_to_dict_def has_words_def)
  next
    case (Some ws)
    show ?thesis
    proof (cases "ws = []")
      case True
      then show ?thesis using Some by (simp add: segment_to_dict_def has_words_def)
    next
      case False
      then have "segment_to_dict speaker_id segment =
          Inr \<lparr> sd_start = w_start (hd ws), sd_end = w_end (last ws), sd_text = s_text segment,
                sd_words = map word_to_dict ws, sd_speaker = speaker_id \<rparr>"
        using Some by (simp add: segment_to_dict_def word_to_dict_def hd_conv_nth last_map hd_map)
      then show ?thesis using Some False Cons.IH by (simp add: has_words_def split: option.splits)
    qed
  qed
qed

text \<open>
  C7, as stated, fails: the code has no check of its own, and a segment with an empty
  word list makes \<^verbatim>\<open>segment_dict["words"][0]\<close> raise the index-out-of-bounds error itself.
\<close>

theorem multi_channel_empty_words_counterexample:
  "fst (multi_channel scripted_model
          [[\<lparr> s_start = 0, s_end = 1, s_text = ''hello'', s_words = Some [] \<rparr>]] ()
          ''en'' 0 False True True 1 2.4 (- 1) 0.6 False None)
     = Inl IndexError"
  by (simp add: multi_channel_def scripted_model_def segment_to_dict_def)

text \<open>
  C7, amended. \<^verbatim>\<open>multi_channel\<close> calls the model once. If every returned segment has at
  least one word, it returns one dictionary per segment, in order, whose start is the
  first word's start and whose end is the last word's end, with the segment's text, its
  words and the given speaker. Otherwise it returns no transcript at all: the call fails
  with the IndexError of the unguarded \<^verbatim>\<open>words[0]\<close> when the first segment without words
  has an empty word list (with TypeError when its word list is \<^verbatim>\<open>None\<close>); no segment is
  emitted silently.
\<close>

theorem multi_channel_segments:
  "case multi_channel model st audio source_lang speaker_id suppress_blank word_timestamps
          internal_vad repetition_penalty compression_ratio_threshold log_prob_threshold
          no_speech_threshold condition_on_previous_text prompt of
     (result, st', calls) \<Rightarrow>
       length calls = 1 \<and>
       (case model st audio (hd calls) of
          (segments, st1) \<Rightarrow>
            st' = st1 \<and>
            result =
              (case find (\<lambda>segment. \<not> has_words segment) segments of
                 None \<Rightarrow>
                   Inr (map (\<lambda>segment.
                          \<lparr> sd_start = w_start (hd (the (s_words segment))),
                            sd_end = w_end (last (the (s_words segment))),
                            sd_text = s_text segment,
                            sd_words = map word_to_dict (the (s_words segment)),
                            sd_speaker = speaker_id \<rparr>) segments)
               | Some bad \<Rightarrow>
                   (case s_words bad of None \<Rightarrow> Inl TypeError | Some ws \<Rightarrow> Inl IndexError)))"
  by (simp add: multi_channel_def segments_loop_eq Let_def split: prod.splits option.splits)

theorem multi_channel_segments_witness:
  "multi_channel scripted_model
     [[\<lparr> s_start = 0, s_end = 9, s_text = ''hi there'',
         s_words = Some [\<lparr> w_start = 0.5, w_end = 1, w_word = ''hi'', w_probability = 0.9 \<rparr>,
                         \<lparr> w_start = 1, w_end = 1.5, w_word = ''there'', w_probability = 0.8 \<rparr>] \<rparr>]]
     () ''en'' 1 False True True 1 2.4 (- 1) 0.6 False None =
   (Inr [\<lparr> sd_start = 0.5, sd_end = 1.5, sd_text = ''hi there'',
           sd_words = [\<lparr> wd_start = 0.5, wd_end = 1, wd_word = ''hi'', wd_score = 0.9 \<rparr>,
                       \<lparr> wd_start = 1, wd_end = 1.5, wd_word = ''there'', wd_score = 0.8 \<rparr>],
           sd_speaker = 1 \<rparr>],
    [],
    [\<lparr> kw_language = ''en'', kw_initial_prompt = None, kw_repetition_penalty = 1,
       kw_compression_ratio_threshold = 2.4, kw_log_prob_threshold = - 1,
       kw_no_speech_threshold = 0.6, kw_condition_on_previous_text = False,
       kw_suppress_blank = False, kw_word_timestamps = True, kw_vad_filter = True,
       kw_vad_parameters = Some service_vad_parameters \<rparr>])"
  using multi_channel_segments [where model = scripted_model
      and st = "[[\<lparr> s_start = 0, s_end = 9, s_text = ''hi there'',
          s_words = Some [\<lparr> w_start = 0.5, w_end = 1, w_word = ''hi'', w_probability = 0.9 \<rparr>,
                          \<lparr> w_start = 1, w_end = 1.5, w_word = ''there'', w_probability = 0.8 \<rparr>] \<rparr>]]"
      and audio = "()" and source_lang = "''en''" and speaker_id = 1 and suppress_blank = False
      and word_timestamps = True and internal_vad = True and repetition_penalty = 1
      and compression_ratio_threshold = "2.4" and log_prob_threshold = "- 1"
      and no_speech_threshold = "0.6" and condition_on_previous_text = False
      and prompt = None]
  by (simp add: multi_channel_def scripted_model_def segment_to_dict_def word_to_dict_def Let_def)

section \<open>The pool\<close>

lemma pool_inv_new: "pool_inv n (new_pool n)"
  by (simp add: pool_inv_def new_pool_def)

lemma pool_inv_step: "pool_inv n p \<Longrightarrow> pool_inv n (pool_step p op)"
proof (cases op)
  case (Acquire r)
  assume "pool_inv n p"
  then show ?thesis using Acquire
    by (auto simp: pool_inv_def acquire_def set_remove1_eq dest: notin_set_remove1)
next
  case (Release r)
  assume "pool_inv n p"
  then show ?thesis using Release
    by (auto simp: pool_inv_def release_def set_remove1_eq dest: notin_set_remove1)
qed

lemma pool_inv_foldl: "pool_inv n p \<Longrightarrow> pool_inv n (foldl pool_step p ops)"
  by (induction ops arbitrary: p) (simp_all add: pool_inv_step)

lemma pool_inv_bound:
  assumes "pool_inv n p"
  shows "length (pool_leases p) \<le> n" and "distinct (pool_leases p)"
    and "set (pool_leases p) \<subseteq> {0..<n}"
proof -
  show d: "distinct (pool_leases p)" using assms by (simp add: pool_inv_def)
  show s: "set (pool_leases p) \<subseteq> {0..<n}" using assms by (auto simp: pool_inv_def)
  have "length (pool_leases p) = card (set (pool_leases p))" using d by (simp add: distinct_card)
  also have "\<dots> \<le> card {0..<n}" using s by (intro card_mono) auto
  finally show "length (pool_leases p) \<le> n" by simp
qed

text \<open>
  C9. For a pool of \<open>n\<close> replicas and every schedule of acquire and release operations,
  after every operation at most \<open>n\<close> leases are outstanding and no replica is named by
  two of them. (The theorem holds for every schedule, so for every prefix of one.)
\<close>

theorem pool_mutual_exclusion:
  "length (pool_leases (run_pool n ops)) \<le> n \<and> distinct (pool_leases (run_pool n ops))"
  using pool_inv_bound [OF pool_inv_foldl [OF pool_inv_new], of n ops]
  by (simp add: run_pool_def)

theorem pool_mutual_exclusion_witness:
  "length (pool_leases (run_pool 2 [Acquire 0, Acquire 0, Acquire 1, Acquire 1, Release 0, Acquire 0])) \<le> 2 \<and>
   distinct (pool_leases (run_pool 2 [Acquire 0, Acquire 0, Acquire 1, Acquire 1, Release 0, Acquire 0])) \<and>
   pool_leases (run_pool 2 [Acquire 0, Acquire 0, Acquire 1, Acquire 1, Release 0, Acquire 0]) = [0, 1]"
proof -
  have "pool_leases (run_pool 2 [Acquire 0, Acquire 0, Acquire 1, Acquire 1, Release 0, Acquire 0]) = [0, 1]"
    by (simp add: run_pool_def new_pool_def acquire_def release_def upt_rec numeral_2_eq_2)
  then show ?thesis
    using pool_mutual_exclusion [of 2 "[Acquire 0, Acquire 0, Acquire 1, Acquire 1, Release 0, Acquire 0]"]
    by simp
qed

end
